theory Spec2Isabelle
  imports Main "HOL-Library.AList"
begin

section \<open>The WebSocket service of \<open>src/services/websocket.ts\<close>\<close>

text \<open>
  The class \<open>WebSocketService\<close> wraps a socket.io client socket. Its fields become a
  record; the objects it shares with the socket library (sockets with their registered
  callbacks, the promise returned by \<open>connect\<close>) live in an explicit store next to the
  fields, and everything the service does to the outside is appended to a trace.

  Collaborators that are not part of the class are inputs of the model: what the secure
  store answers to each read, whether \<open>io(...)\<close> throws, and whether a subscriber callback
  throws. Subscriber callbacks are identified by a reference number; they may throw but
  they do not call back into the service while they run. Every method runs to its last
  statement (or to the point where it hands back a pending promise) before anything else
  happens.
\<close>

subsection \<open>Values\<close>

datatype json =
    JUndefined
  | JNull
  | JBool bool
  | JStr string
  | JObj "(string \<times> json) list"

type_synonym listener = nat
type_synonym sock_ref = nat
type_synonym promise_ref = nat

text \<open>The callbacks that \<open>connect\<close> and \<open>setupEventListeners\<close> register on a socket.\<close>

datatype handler =
    On_connect promise_ref
  | On_connect_error promise_ref
  | On_disconnect
  | On_error
  | On_inbound string

record socket_obj =
  sock_connected :: bool
  sock_callbacks :: "(string \<times> handler) list"
  auth_token :: string
  auth_userId :: "string option"
  opt_reconnectionAttempts :: nat
  opt_reconnectionDelay :: nat

datatype effect =
    GetItemAsync
  | SetTimeout nat
  | ConsoleError string
  | IoOpen sock_ref
  | SocketDisconnect sock_ref
  | SocketEmit sock_ref string json
  | RegistryEmit string json
  | ListenerCall string listener json

record service =
  socket :: "sock_ref option"
  isConnected :: bool
  reconnectAttempts :: nat
  maxReconnectAttempts :: nat
  reconnectDelay :: nat
  currentUserId :: "string option"
  eventListeners :: "(string \<times> listener list) list"

record world = service +
  sockets :: "socket_obj list"
  promises :: "bool option list"
  trace :: "effect list"

datatype store_reply = Found string | Missing | Rejected

record env =
  tokenStore :: "nat \<Rightarrow> store_reply"
  io_throws :: bool
  listener_throws :: "listener \<Rightarrow> json \<Rightarrow> bool"

text \<open>A statement either completes or throws; both leave a state behind.\<close>

datatype 'a completion = Normal 'a | Throws 'a

text \<open>
  What awaiting the promise of an \<open>async\<close> method gives: a value, a promise still
  pending, or a rejection (an exception that left the method).
\<close>

datatype settled = Resolved bool | Pending promise_ref | Rejects

definition initial :: "nat \<Rightarrow> nat \<Rightarrow> world" where
  "initial attempts delay =
     \<lparr>socket = None, isConnected = False, reconnectAttempts = 0,
      maxReconnectAttempts = attempts, reconnectDelay = delay,
      currentUserId = None, eventListeners = [],
      sockets = [], promises = [], trace = []\<rparr>"

subsection \<open>JavaScript truthiness of an optional string\<close>

definition truthy :: "string option \<Rightarrow> bool" where
  "truthy v = (case v of None \<Rightarrow> False | Some s \<Rightarrow> s \<noteq> [])"

text \<open>\<open>v || null\<close> and \<open>v || undefined\<close>: an absent or empty string becomes absent.\<close>

definition or_null :: "string option \<Rightarrow> string option" where
  "or_null v = (if truthy v then v else None)"

subsection \<open>Effects and the socket store\<close>

definition record_effect :: "effect \<Rightarrow> world \<Rightarrow> world" where
  "record_effect e w = w\<lparr>trace := trace w @ [e]\<rparr>"

definition console_error :: "string \<Rightarrow> world \<Rightarrow> world" where
  "console_error msg w = record_effect (ConsoleError msg) w"

definition sock_get :: "world \<Rightarrow> sock_ref \<Rightarrow> socket_obj option" where
  "sock_get w r = (if r < length (sockets w) then Some (sockets w ! r) else None)"

definition sock_upd :: "sock_ref \<Rightarrow> (socket_obj \<Rightarrow> socket_obj) \<Rightarrow> world \<Rightarrow> world" where
  "sock_upd r f w =
     (if r < length (sockets w) then w\<lparr>sockets := (sockets w)[r := f (sockets w ! r)]\<rparr>
      else w)"

text \<open>\<open>this.socket?.connected\<close>, read as a condition.\<close>

definition socket_connected :: "world \<Rightarrow> bool" where
  "socket_connected w =
     (case socket w of
        None \<Rightarrow> False
      | Some r \<Rightarrow> (case sock_get w r of None \<Rightarrow> False | Some s \<Rightarrow> sock_connected s))"

text \<open>\<open>socket.on(event, callback)\<close> and \<open>socket.emit(event, payload)\<close>.\<close>

definition sock_on :: "sock_ref \<Rightarrow> string \<Rightarrow> handler \<Rightarrow> world \<Rightarrow> world" where
  "sock_on r ev h w = sock_upd r (\<lambda>s. s\<lparr>sock_callbacks := sock_callbacks s @ [(ev, h)]\<rparr>) w"

definition sock_emit :: "sock_ref \<Rightarrow> string \<Rightarrow> json \<Rightarrow> world \<Rightarrow> world" where
  "sock_emit r ev payload w = record_effect (SocketEmit r ev payload) w"

text \<open>
  \<open>io(url, options)\<close>: a new socket, not yet connected, holding the auth payload and the
  reconnection options it was opened with.
\<close>

definition io :: "string \<Rightarrow> string option \<Rightarrow> world \<Rightarrow> sock_ref \<times> world" where
  "io token uid w =
     (let r = length (sockets w);
          s = \<lparr>sock_connected = False, sock_callbacks = [],
               auth_token = token, auth_userId = uid,
               opt_reconnectionAttempts = maxReconnectAttempts w,
               opt_reconnectionDelay = reconnectDelay w\<rparr>
      in (r, record_effect (IoOpen r) (w\<lparr>sockets := sockets w @ [s]\<rparr>)))"

definition new_promise :: "world \<Rightarrow> promise_ref \<times> world" where
  "new_promise w = (length (promises w), w\<lparr>promises := promises w @ [None]\<rparr>)"

text \<open>\<open>resolve(b)\<close>: the first call settles the promise, later calls do nothing.\<close>

definition resolve :: "promise_ref \<Rightarrow> bool \<Rightarrow> world \<Rightarrow> world" where
  "resolve p b w =
     (if p < length (promises w) \<and> promises w ! p = None
      then w\<lparr>promises := (promises w)[p := Some b]\<rparr> else w)"

definition promise_state :: "world \<Rightarrow> promise_ref \<Rightarrow> bool option" where
  "promise_state w p = (if p < length (promises w) then promises w ! p else None)"

subsection \<open>Token retrieval\<close>

text \<open>
  The loop of \<open>getAuthTokenWithRetry\<close>, from index \<open>i\<close>. An empty token is falsy and
  counts as none; a rejected read is caught and logged.
\<close>

function getAuthTokenWithRetry_from ::
  "(nat \<Rightarrow> store_reply) \<Rightarrow> nat \<Rightarrow> nat \<Rightarrow> nat \<Rightarrow> effect list \<Rightarrow> string option \<times> effect list"
where
  "getAuthTokenWithRetry_from store maxRetries delay i tr =
     (if i < maxRetries then
        (let tr1 = tr @ [GetItemAsync];
             pause = (if i < maxRetries - 1 then [SetTimeout delay] else [])
         in case store i of
              Found token \<Rightarrow>
                if token \<noteq> [] then (Some token, tr1)
                else getAuthTokenWithRetry_from store maxRetries delay (Suc i) (tr1 @ pause)
            | Missing \<Rightarrow>
                getAuthTokenWithRetry_from store maxRetries delay (Suc i) (tr1 @ pause)
            | Rejected \<Rightarrow>
                getAuthTokenWithRetry_from store maxRetries delay (Suc i)
                  (tr1 @ [ConsoleError ''Error getting auth token''] @ pause))
      else (None, tr))"
  by pat_completeness auto
termination
  by (relation "measure (\<lambda>(store, maxRetries, delay, i, tr). maxRetries - i)") auto

definition getAuthTokenWithRetry :: "(nat \<Rightarrow> store_reply) \<Rightarrow> world \<Rightarrow> string option \<times> world" where
  "getAuthTokenWithRetry store w =
     (case getAuthTokenWithRetry_from store 3 1000 0 (trace w) of
        (token, tr) \<Rightarrow> (token, w\<lparr>trace := tr\<rparr>))"

declare getAuthTokenWithRetry_from.simps [simp del]

subsection \<open>The event registry\<close>

text \<open>
  \<open>eventListeners\<close> is a \<open>Map\<close> from event name to a \<open>Set\<close> of callbacks. The map is an
  association list, a set is the list of its members in insertion order (the order in
  which \<open>forEach\<close> visits them).
\<close>

definition set_add :: "'a list \<Rightarrow> 'a \<Rightarrow> 'a list" where
  "set_add xs x = (if x \<in> set xs then xs else xs @ [x])"

definition set_delete :: "'a list \<Rightarrow> 'a \<Rightarrow> 'a list" where
  "set_delete xs x = removeAll x xs"

definition on :: "string \<Rightarrow> listener \<Rightarrow> world \<Rightarrow> world" where
  "on event l w =
     (let m = (if map_of (eventListeners w) event = None
               then AList.update event [] (eventListeners w) else eventListeners w)
      in case map_of m event of
           Some ls \<Rightarrow> w\<lparr>eventListeners := AList.update event (set_add ls l) m\<rparr>
         | None \<Rightarrow> w\<lparr>eventListeners := m\<rparr>)"

definition off :: "string \<Rightarrow> listener \<Rightarrow> world \<Rightarrow> world" where
  "off event l w =
     (case map_of (eventListeners w) event of
        None \<Rightarrow> w
      | Some ls \<Rightarrow>
          (let ls' = set_delete ls l
           in if length ls' = 0
              then w\<lparr>eventListeners := AList.delete event (eventListeners w)\<rparr>
              else w\<lparr>eventListeners := AList.update event ls' (eventListeners w)\<rparr>))"

text \<open>\<open>xs.forEach(f)\<close>: a callback that throws ends the iteration.\<close>

fun forEach :: "('a \<Rightarrow> 's \<Rightarrow> 's completion) \<Rightarrow> 'a list \<Rightarrow> 's \<Rightarrow> 's completion" where
  "forEach f [] w = Normal w"
| "forEach f (x # xs) w =
     (case f x w of Normal w' \<Rightarrow> forEach f xs w' | Throws w' \<Rightarrow> Throws w')"

text \<open>Calling a subscriber callback with the data.\<close>

definition call_listener :: "env \<Rightarrow> string \<Rightarrow> listener \<Rightarrow> json \<Rightarrow> world \<Rightarrow> world completion" where
  "call_listener env event l data w =
     (let w' = record_effect (ListenerCall event l data) w
      in if listener_throws env l data then Throws w' else Normal w')"

text \<open>The body of the \<open>forEach\<close> in \<open>emit\<close>: the call inside \<open>try\<close>, the log inside \<open>catch\<close>.\<close>

definition guarded_call :: "env \<Rightarrow> string \<Rightarrow> json \<Rightarrow> listener \<Rightarrow> world \<Rightarrow> world completion" where
  "guarded_call env event data l w =
     (case call_listener env event l data w of
        Normal w' \<Rightarrow> Normal w'
      | Throws w' \<Rightarrow> Normal (console_error ''Error in event listener'' w'))"

text \<open>The private \<open>emit\<close>. Each call is noted in the trace before the listeners run.\<close>

definition emit :: "env \<Rightarrow> string \<Rightarrow> json \<Rightarrow> world \<Rightarrow> world completion" where
  "emit env event data w =
     (let w0 = record_effect (RegistryEmit event data) w
      in case map_of (eventListeners w0) event of
           None \<Rightarrow> Normal w0
         | Some ls \<Rightarrow> forEach (guarded_call env event data) ls w0)"

subsection \<open>Connection lifecycle\<close>

definition setupEventListeners :: "world \<Rightarrow> world" where
  "setupEventListeners w =
     (case socket w of
        None \<Rightarrow> w
      | Some r \<Rightarrow>
          (sock_on r ''user_joined_room'' (On_inbound ''user_joined_room'')
           (sock_on r ''room_left'' (On_inbound ''room_left'')
           (sock_on r ''room_joined'' (On_inbound ''room_joined'')
           (sock_on r ''user_offline'' (On_inbound ''user_offline'')
           (sock_on r ''user_online'' (On_inbound ''user_online'')
           (sock_on r ''user_typing'' (On_inbound ''user_typing'')
           (sock_on r ''room_left'' (On_inbound ''room_left'')
           (sock_on r ''room_joined'' (On_inbound ''room_joined'')
           (sock_on r ''message_read'' (On_inbound ''message_read'')
           (sock_on r ''new_message'' (On_inbound ''new_message'') w)))))))))))"

text \<open>
  \<open>connect\<close>, up to the point where it returns a value or hands back the promise whose
  \<open>resolve\<close> the \<open>connect\<close> and \<open>connect_error\<close> callbacks hold. The \<open>catch\<close> around the whole
  body is reached when \<open>io(...)\<close> throws.
\<close>

definition connect :: "env \<Rightarrow> string option \<Rightarrow> world \<Rightarrow> settled \<times> world" where
  "connect env userId w =
     (if socket_connected w then (Resolved True, w)
      else
        case getAuthTokenWithRetry (tokenStore env) w of
          (None, w1) \<Rightarrow>
            (Resolved False,
             console_error ''No auth token found for WebSocket connection after retries'' w1)
        | (Some token, w1) \<Rightarrow>
            (let w2 = w1\<lparr>currentUserId := or_null userId\<rparr>
             in if io_throws env
                then (Resolved False, console_error ''Failed to connect to WebSocket'' w2)
                else
                  (case io token (currentUserId w2) w2 of
                     (r, w3) \<Rightarrow>
                       (case new_promise (w3\<lparr>socket := Some r\<rparr>) of
                          (p, w4) \<Rightarrow>
                            (case socket w4 of
                               None \<Rightarrow> (Resolved False, resolve p False w4)
                             | Some s \<Rightarrow>
                                 (Pending p,
                                  sock_on s ''error'' On_error
                                  (sock_on s ''disconnect'' On_disconnect
                                  (sock_on s ''connect_error'' (On_connect_error p)
                                  (sock_on s ''connect'' (On_connect p) w4)))))))))"

definition isAuthenticated :: "env \<Rightarrow> world \<Rightarrow> bool \<times> world" where
  "isAuthenticated env w =
     (let w' = record_effect GetItemAsync w
      in case tokenStore env 0 of
           Found token \<Rightarrow> (token \<noteq> [], w')
         | Missing \<Rightarrow> (False, w')
         | Rejected \<Rightarrow> (False, console_error ''Error checking authentication status'' w'))"

subsection \<open>Getters\<close>

definition connected :: "world \<Rightarrow> bool" where
  "connected w = (isConnected w \<and> socket_connected w)"

definition userId :: "world \<Rightarrow> string option" where
  "userId w = currentUserId w"

record status =
  status_connected :: bool
  status_reconnectAttempts :: nat
  status_userId :: "string option"

definition getConnectionStatus :: "world \<Rightarrow> status" where
  "getConnectionStatus w =
     \<lparr>status_connected = connected w,
      status_reconnectAttempts = reconnectAttempts w,
      status_userId = currentUserId w\<rparr>"

subsection \<open>Socket callbacks\<close>

text \<open>
  The bodies of the callbacks registered on a socket, run with the event's data. They
  act on the service (\<open>this\<close>), whichever socket they were registered on.
\<close>

fun run_handler :: "env \<Rightarrow> json \<Rightarrow> handler \<Rightarrow> world \<Rightarrow> world completion" where
  "run_handler env data (On_connect p) w =
     Normal (resolve p True
              (setupEventListeners (w\<lparr>isConnected := True, reconnectAttempts := 0\<rparr>)))"
| "run_handler env data (On_connect_error p) w =
     Normal (resolve p False
              ((console_error ''WebSocket connection error'' w)\<lparr>isConnected := False\<rparr>))"
| "run_handler env data On_disconnect w =
     emit env ''disconnected'' (JObj [(''reason'', data)]) (w\<lparr>isConnected := False\<rparr>)"
| "run_handler env data On_error w =
     emit env ''error'' data (console_error ''WebSocket error'' w)"
| "run_handler env data (On_inbound name) w =
     emit env name data w"

definition callbacks_for :: "socket_obj \<Rightarrow> string \<Rightarrow> handler list" where
  "callbacks_for s ev = map snd (filter (\<lambda>c. fst c = ev) (sock_callbacks s))"

text \<open>
  The socket library delivering one event on socket \<open>r\<close>: it sets the socket's own
  \<open>connected\<close> flag for \<open>connect\<close> and \<open>disconnect\<close>, then runs the callbacks registered for
  the event, in registration order, from a copy of the list taken at the start.
\<close>

definition socket_event :: "env \<Rightarrow> sock_ref \<Rightarrow> string \<Rightarrow> json \<Rightarrow> world \<Rightarrow> world completion" where
  "socket_event env r ev data w =
     (case sock_get w r of
        None \<Rightarrow> Normal w
      | Some s \<Rightarrow>
          (let w1 = (if ev = ''connect'' then sock_upd r (\<lambda>s. s\<lparr>sock_connected := True\<rparr>) w
                     else if ev = ''disconnect''
                          then sock_upd r (\<lambda>s. s\<lparr>sock_connected := False\<rparr>) w
                     else w)
           in forEach (run_handler env data) (callbacks_for s ev) w1))"

definition state_of :: "'a completion \<Rightarrow> 'a" where
  "state_of c = (case c of Normal w \<Rightarrow> w | Throws w \<Rightarrow> w)"

subsection \<open>Disconnect and reconnect\<close>

text \<open>
  \<open>socket.disconnect()\<close>: on a socket that is connected, the library closes it and
  delivers its \<open>disconnect\<close> event, with the reason \<open>io client disconnect\<close>, before the
  call returns; on any other socket it only tears the socket down.
\<close>

definition sock_disconnect :: "env \<Rightarrow> sock_ref \<Rightarrow> world \<Rightarrow> world completion" where
  "sock_disconnect env r w =
     (let w1 = record_effect (SocketDisconnect r) w
      in case sock_get w1 r of
           None \<Rightarrow> Normal w1
         | Some s \<Rightarrow>
             if sock_connected s
             then socket_event env r ''disconnect'' (JStr ''io client disconnect'') w1
             else Normal w1)"

definition disconnect :: "env \<Rightarrow> world \<Rightarrow> world completion" where
  "disconnect env w =
     (case socket w of
        None \<Rightarrow> Normal w
      | Some r \<Rightarrow>
          (case sock_disconnect env r w of
             Normal w1 \<Rightarrow>
               Normal (w1\<lparr>socket := None, isConnected := False, currentUserId := None\<rparr>)
           | Throws w1 \<Rightarrow> Throws w1))"

text \<open>The argument that \<open>reconnect\<close> passes to \<open>connect\<close>: read after \<open>disconnect\<close> has run.\<close>

definition reconnect_arg :: "env \<Rightarrow> world \<Rightarrow> string option" where
  "reconnect_arg env w = or_null (currentUserId (state_of (disconnect env w)))"

definition reconnect :: "env \<Rightarrow> world \<Rightarrow> settled \<times> world" where
  "reconnect env w =
     (case disconnect env w of
        Throws w1 \<Rightarrow> (Rejects, w1)
      | Normal w1 \<Rightarrow>
          (let w2 = record_effect (SetTimeout (reconnectDelay w1)) w1
           in connect env (or_null (currentUserId w2)) w2))"

subsection \<open>Guarded operations\<close>

text \<open>
  Each returns what the method returns (\<open>None\<close> where it returns nothing) and the state.
  The emission goes to \<open>this.socket\<close>.
\<close>

definition socket_emit :: "string \<Rightarrow> json \<Rightarrow> world \<Rightarrow> world" where
  "socket_emit ev payload w = (case socket w of None \<Rightarrow> w | Some r \<Rightarrow> sock_emit r ev payload w)"

definition joinRoom :: "string \<Rightarrow> world \<Rightarrow> bool option \<times> world" where
  "joinRoom recipientId w =
     (if \<not> socket_connected w
      then (None, console_error ''Cannot join room: WebSocket not connected'' w)
      else (None, socket_emit ''join_room'' (JObj [(''recipientId'', JStr recipientId)]) w))"

definition leaveRoom :: "string \<Rightarrow> world \<Rightarrow> bool option \<times> world" where
  "leaveRoom recipientId w =
     (if \<not> socket_connected w
      then (None, console_error ''Cannot leave room: WebSocket not connected'' w)
      else (None, socket_emit ''leave_room'' (JObj [(''recipientId'', JStr recipientId)]) w))"

definition sendMessage :: "string \<Rightarrow> string \<Rightarrow> string option \<Rightarrow> world \<Rightarrow> bool option \<times> world" where
  "sendMessage recipientId content type w =
     (if \<not> socket_connected w
      then (Some False, console_error ''Cannot send message: WebSocket not connected'' w)
      else (Some True,
            socket_emit ''send_message''
              (JObj [(''recipientId'', JStr recipientId), (''content'', JStr content),
                     (''type'', JStr (case type of None \<Rightarrow> ''TEXT'' | Some t \<Rightarrow> t))]) w))"

definition markMessageAsRead :: "string \<Rightarrow> world \<Rightarrow> bool option \<times> world" where
  "markMessageAsRead messageId w =
     (if \<not> socket_connected w
      then (None, console_error ''Cannot mark message as read: WebSocket not connected'' w)
      else (None, socket_emit ''mark_message_read'' (JObj [(''messageId'', JStr messageId)]) w))"

definition sendTypingStatus :: "string \<Rightarrow> bool \<Rightarrow> world \<Rightarrow> bool option \<times> world" where
  "sendTypingStatus recipientId isTyping w =
     (if \<not> socket_connected w
      then (None, console_error ''Cannot send typing status: WebSocket not connected'' w)
      else (None,
            socket_emit ''typing''
              (JObj [(''recipientId'', JStr recipientId), (''isTyping'', JBool isTyping)]) w))"

definition getActiveUsers :: "world \<Rightarrow> bool option \<times> world" where
  "getActiveUsers w =
     (if \<not> socket_connected w
      then (None, console_error ''Cannot get active users: WebSocket not connected'' w)
      else (None, socket_emit ''get_active_users'' JUndefined w))"

definition sendChatInvitation :: "string \<Rightarrow> string \<Rightarrow> world \<Rightarrow> bool option \<times> world" where
  "sendChatInvitation recipientId message w =
     (if \<not> socket_connected w
      then (Some False, console_error ''Cannot send chat invitation: WebSocket not connected'' w)
      else (Some True,
            socket_emit ''send_chat_invitation''
              (JObj [(''recipientId'', JStr recipientId), (''message'', JStr message)]) w))"

definition acceptChatInvitation :: "string \<Rightarrow> world \<Rightarrow> bool option \<times> world" where
  "acceptChatInvitation invitationId w =
     (if \<not> socket_connected w
      then (Some False, console_error ''Cannot accept chat invitation: WebSocket not connected'' w)
      else (Some True,
            socket_emit ''accept_chat_invitation'' (JObj [(''invitationId'', JStr invitationId)]) w))"

definition rejectChatInvitation :: "string \<Rightarrow> world \<Rightarrow> bool option \<times> world" where
  "rejectChatInvitation invitationId w =
     (if \<not> socket_connected w
      then (Some False, console_error ''Cannot reject chat invitation: WebSocket not connected'' w)
      else (Some True,
            socket_emit ''reject_chat_invitation'' (JObj [(''invitationId'', JStr invitationId)]) w))"

definition emitEvent :: "string \<Rightarrow> json \<Rightarrow> world \<Rightarrow> bool option \<times> world" where
  "emitEvent event data w =
     (if \<not> socket_connected w
      then (Some False, console_error ''Cannot emit: WebSocket not connected'' w)
      else (Some True, socket_emit event data w))"

datatype guarded_op =
    JoinRoom string
  | LeaveRoom string
  | SendMessage string string "string option"
  | MarkMessageAsRead string
  | SendTypingStatus string bool
  | GetActiveUsers
  | SendChatInvitation string string
  | AcceptChatInvitation string
  | RejectChatInvitation string

fun invoke :: "guarded_op \<Rightarrow> world \<Rightarrow> bool option \<times> world" where
  "invoke (JoinRoom r) w = joinRoom r w"
| "invoke (LeaveRoom r) w = leaveRoom r w"
| "invoke (SendMessage r c t) w = sendMessage r c t w"
| "invoke (MarkMessageAsRead m) w = markMessageAsRead m w"
| "invoke (SendTypingStatus r b) w = sendTypingStatus r b w"
| "invoke GetActiveUsers w = getActiveUsers w"
| "invoke (SendChatInvitation r m) w = sendChatInvitation r m w"
| "invoke (AcceptChatInvitation i) w = acceptChatInvitation i w"
| "invoke (RejectChatInvitation i) w = rejectChatInvitation i w"

text \<open>The outbound emissions made so far.\<close>

fun is_SocketEmit :: "effect \<Rightarrow> bool" where
  "is_SocketEmit (SocketEmit r ev payload) = True"
| "is_SocketEmit e = False"

definition outbound :: "world \<Rightarrow> effect list" where
  "outbound w = filter is_SocketEmit (trace w)"

subsection \<open>Everything that can happen to the service\<close>

datatype action =
    Call_connect "string option"
  | Call_disconnect
  | Call_reconnect
  | Call_isAuthenticated
  | Call_guarded guarded_op
  | Call_emitEvent string json
  | Call_on string listener
  | Call_off string listener
  | Socket_event sock_ref string json

fun perform :: "env \<Rightarrow> action \<Rightarrow> world \<Rightarrow> world" where
  "perform env (Call_connect uid) w = snd (connect env uid w)"
| "perform env Call_disconnect w = state_of (disconnect env w)"
| "perform env Call_reconnect w = snd (reconnect env w)"
| "perform env Call_isAuthenticated w = snd (isAuthenticated env w)"
| "perform env (Call_guarded op) w = snd (invoke op w)"
| "perform env (Call_emitEvent ev data) w = snd (emitEvent ev data w)"
| "perform env (Call_on ev l) w = on ev l w"
| "perform env (Call_off ev l) w = off ev l w"
| "perform env (Socket_event r ev data) w = state_of (socket_event env r ev data w)"

text \<open>
  The states the service can be in: it is constructed with the configured reconnection
  settings, and then methods are called and socket events arrive in any order, each
  with collaborators behaving in any way.
\<close>

inductive reachable :: "world \<Rightarrow> bool" where
  start: "reachable (initial attempts delay)"
| step: "reachable w \<Longrightarrow> reachable (perform env a w)"

fun run :: "(env \<times> action) list \<Rightarrow> world \<Rightarrow> world" where
  "run [] w = w"
| "run ((env, a) # rest) w = run rest (perform env a w)"

subsection \<open>Observations on the registry and the trace\<close>

text \<open>The listeners registered for an event, in the order \<open>emit\<close> visits them.\<close>

definition listeners_of :: "world \<Rightarrow> string \<Rightarrow> listener list" where
  "listeners_of w event =
     (case map_of (eventListeners w) event of None \<Rightarrow> [] | Some ls \<Rightarrow> ls)"

text \<open>What one pass of the loop in \<open>emit\<close> leaves in the trace for listener \<open>l\<close>.\<close>

definition call_effects :: "env \<Rightarrow> string \<Rightarrow> json \<Rightarrow> listener \<Rightarrow> effect list" where
  "call_effects env event data l =
     ListenerCall event l data #
       (if listener_throws env l data then [ConsoleError ''Error in event listener''] else [])"

fun is_ListenerCall :: "effect \<Rightarrow> bool" where
  "is_ListenerCall (ListenerCall ev l d) = True"
| "is_ListenerCall e = False"

fun is_ConsoleError :: "effect \<Rightarrow> bool" where
  "is_ConsoleError (ConsoleError m) = True"
| "is_ConsoleError e = False"

fun is_RegistryEmit :: "effect \<Rightarrow> bool" where
  "is_RegistryEmit (RegistryEmit ev d) = True"
| "is_RegistryEmit e = False"

fun is_call_to :: "string \<Rightarrow> listener \<Rightarrow> effect \<Rightarrow> bool" where
  "is_call_to event l (ListenerCall ev l' d) = (ev = event \<and> l' = l)"
| "is_call_to event l e = False"

definition listener_calls :: "world \<Rightarrow> effect list" where
  "listener_calls w = filter is_ListenerCall (trace w)"

definition logged_errors :: "world \<Rightarrow> effect list" where
  "logged_errors w = filter is_ConsoleError (trace w)"

definition registry_emits :: "world \<Rightarrow> effect list" where
  "registry_emits w = filter is_RegistryEmit (trace w)"

definition calls_to :: "string \<Rightarrow> listener \<Rightarrow> world \<Rightarrow> effect list" where
  "calls_to event l w = filter (is_call_to event l) (trace w)"

text \<open>The reads of the secure store and the awaited delays, as they appear in a trace.\<close>

fun fetches :: "effect list \<Rightarrow> nat" where
  "fetches [] = 0"
| "fetches (GetItemAsync # tr) = Suc (fetches tr)"
| "fetches (e # tr) = fetches tr"

fun delays :: "effect list \<Rightarrow> nat list" where
  "delays [] = []"
| "delays (SetTimeout d # tr) = d # delays tr"
| "delays (e # tr) = delays tr"

text \<open>What one attempt of \<open>getAuthTokenWithRetry\<close> that finds no token leaves in the trace.\<close>

definition attempt_effects :: "(nat \<Rightarrow> store_reply) \<Rightarrow> nat \<Rightarrow> effect list" where
  "attempt_effects store i =
     GetItemAsync #
       (if store i = Rejected then [ConsoleError ''Error getting auth token''] else [])"

text \<open>The fields that no socket callback writes have the same values in both states.\<close>

definition same_settings :: "world \<Rightarrow> world \<Rightarrow> bool" where
  "same_settings w w' =
     (socket w' = socket w \<and> currentUserId w' = currentUserId w \<and>
      maxReconnectAttempts w' = maxReconnectAttempts w \<and>
      reconnectDelay w' = reconnectDelay w \<and> eventListeners w' = eventListeners w)"

text \<open>A reply of the secure store that gives \<open>getAuthTokenWithRetry\<close> no token.\<close>

fun no_token :: "store_reply \<Rightarrow> bool" where
  "no_token (Found token) = (token = [])"
| "no_token Missing = True"
| "no_token Rejected = True"

text \<open>
  The state in which \<open>connect\<close> hands back its pending promise, when it started from \<open>w\<close>
  with the token in hand: the user id stored, a new socket opened with the four lifecycle
  callbacks registered on it, a new promise pending.
\<close>

definition opened :: "string \<Rightarrow> string option \<Rightarrow> world \<Rightarrow> world" where
  "opened token uid w =
     w\<lparr>currentUserId := or_null uid,
       socket := Some (length (sockets w)),
       sockets := sockets w @
         [\<lparr>sock_connected = False,
           sock_callbacks =
             [(''connect'', On_connect (length (promises w))),
              (''connect_error'', On_connect_error (length (promises w))),
              (''disconnect'', On_disconnect), (''error'', On_error)],
           auth_token = token, auth_userId = or_null uid,
           opt_reconnectionAttempts = maxReconnectAttempts w,
           opt_reconnectionDelay = reconnectDelay w\<rparr>],
       promises := promises w @ [None],
       trace := trace w @ [IoOpen (length (sockets w))]\<rparr>"

subsection \<open>Sample collaborators and states\<close>

definition with_token :: env where
  "with_token =
     \<lparr>tokenStore = (\<lambda>i. Found ''tok''), io_throws = False,
      listener_throws = (\<lambda>l d. False)\<rparr>"

definition never_token :: env where
  "never_token =
     \<lparr>tokenStore = (\<lambda>i. Missing), io_throws = False, listener_throws = (\<lambda>l d. False)\<rparr>"

definition failing_io :: env where
  "failing_io =
     \<lparr>tokenStore = (\<lambda>i. Found ''tok''), io_throws = True,
      listener_throws = (\<lambda>l d. False)\<rparr>"

text \<open>Listener 1 throws, every other listener returns.\<close>

definition first_throws :: env where
  "first_throws =
     \<lparr>tokenStore = (\<lambda>i. Found ''tok''), io_throws = False,
      listener_throws = (\<lambda>l d. l = 1)\<rparr>"

text \<open>\<open>connect('u1')\<close> on a new service, then the socket's \<open>connect\<close> event.\<close>

definition live_world :: world where
  "live_world =
     run [(with_token, Call_connect (Some ''u1'')),
          (with_token, Socket_event 0 ''connect'' JUndefined)] (initial 5 1000)"

text \<open>
  Two calls of \<open>connect\<close> before either socket has connected; the second socket connects,
  the first one reports a connection error.
\<close>

definition stale_flag_world :: world where
  "stale_flag_world =
     run [(with_token, Call_connect (Some ''u1'')),
          (with_token, Call_connect (Some ''u1'')),
          (with_token, Socket_event 1 ''connect'' JUndefined),
          (with_token, Socket_event 0 ''connect_error'' JUndefined)] (initial 5 1000)"

text \<open>Listeners 1 and 2 subscribed to \<open>new_message\<close> on the connected service.\<close>

definition two_listeners_world :: world where
  "two_listeners_world =
     run [(with_token, Call_on ''new_message'' 1),
          (with_token, Call_on ''new_message'' 2)] live_world"

text \<open>A listener subscribed, then \<open>connect('u1')\<close> whose socket has not connected yet.\<close>

definition pending_world :: world where
  "pending_world =
     run [(with_token, Call_on ''new_message'' 7),
          (with_token, Call_connect (Some ''u1''))] (initial 5 1000)"

text \<open>\<open>connect('u1')\<close> on a new service, with a token, where \<open>io(...)\<close> throws.\<close>

definition failed_open_world :: world where
  "failed_open_world = run [(failing_io, Call_connect (Some ''u1''))] (initial 5 1000)"

section \<open>Frame lemmas\<close>

text \<open>Which fields each helper leaves alone.\<close>

lemma record_effect_frame [simp]:
  "socket (record_effect x w) = socket w"
  "isConnected (record_effect x w) = isConnected w"
  "reconnectAttempts (record_effect x w) = reconnectAttempts w"
  "maxReconnectAttempts (record_effect x w) = maxReconnectAttempts w"
  "reconnectDelay (record_effect x w) = reconnectDelay w"
  "currentUserId (record_effect x w) = currentUserId w"
  "eventListeners (record_effect x w) = eventListeners w"
  "sockets (record_effect x w) = sockets w"
  "promises (record_effect x w) = promises w"
  "trace (record_effect x w) = trace w @ [x]"
  by (simp_all add: record_effect_def)

lemma sock_upd_frame [simp]:
  "socket (sock_upd r f w) = socket w"
  "isConnected (sock_upd r f w) = isConnected w"
  "reconnectAttempts (sock_upd r f w) = reconnectAttempts w"
  "maxReconnectAttempts (sock_upd r f w) = maxReconnectAttempts w"
  "reconnectDelay (sock_upd r f w) = reconnectDelay w"
  "currentUserId (sock_upd r f w) = currentUserId w"
  "eventListeners (sock_upd r f w) = eventListeners w"
  "length (sockets (sock_upd r f w)) = length (sockets w)"
  "promises (sock_upd r f w) = promises w"
  "trace (sock_upd r f w) = trace w"
  by (simp_all add: sock_upd_def)

lemma resolve_frame [simp]:
  "socket (resolve p b w) = socket w"
  "isConnected (resolve p b w) = isConnected w"
  "reconnectAttempts (resolve p b w) = reconnectAttempts w"
  "maxReconnectAttempts (resolve p b w) = maxReconnectAttempts w"
  "reconnectDelay (resolve p b w) = reconnectDelay w"
  "currentUserId (resolve p b w) = currentUserId w"
  "eventListeners (resolve p b w) = eventListeners w"
  "sockets (resolve p b w) = sockets w"
  "length (promises (resolve p b w)) = length (promises w)"
  "trace (resolve p b w) = trace w"
  by (simp_all add: resolve_def)

lemma sock_on_frame [simp]:
  "socket (sock_on r ev h w) = socket w"
  "isConnected (sock_on r ev h w) = isConnected w"
  "reconnectAttempts (sock_on r ev h w) = reconnectAttempts w"
  "maxReconnectAttempts (sock_on r ev h w) = maxReconnectAttempts w"
  "reconnectDelay (sock_on r ev h w) = reconnectDelay w"
  "currentUserId (sock_on r ev h w) = currentUserId w"
  "eventListeners (sock_on r ev h w) = eventListeners w"
  "length (sockets (sock_on r ev h w)) = length (sockets w)"
  "promises (sock_on r ev h w) = promises w"
  "trace (sock_on r ev h w) = trace w"
  by (simp_all add: sock_on_def)

lemma setupEventListeners_frame [simp]:
  "socket (setupEventListeners w) = socket w"
  "isConnected (setupEventListeners w) = isConnected w"
  "reconnectAttempts (setupEventListeners w) = reconnectAttempts w"
  "maxReconnectAttempts (setupEventListeners w) = maxReconnectAttempts w"
  "reconnectDelay (setupEventListeners w) = reconnectDelay w"
  "currentUserId (setupEventListeners w) = currentUserId w"
  "eventListeners (setupEventListeners w) = eventListeners w"
  "length (sockets (setupEventListeners w)) = length (sockets w)"
  "promises (setupEventListeners w) = promises w"
  "trace (setupEventListeners w) = trace w"
  by (simp_all add: setupEventListeners_def split: option.split)

lemma state_of_simps [simp]:
  "state_of (Normal w) = w"
  "state_of (Throws w) = w"
  by (simp_all add: state_of_def)

lemma token_fetch_frame [simp]:
  "socket (snd (getAuthTokenWithRetry store w)) = socket w"
  "isConnected (snd (getAuthTokenWithRetry store w)) = isConnected w"
  "reconnectAttempts (snd (getAuthTokenWithRetry store w)) = reconnectAttempts w"
  "maxReconnectAttempts (snd (getAuthTokenWithRetry store w)) = maxReconnectAttempts w"
  "reconnectDelay (snd (getAuthTokenWithRetry store w)) = reconnectDelay w"
  "currentUserId (snd (getAuthTokenWithRetry store w)) = currentUserId w"
  "eventListeners (snd (getAuthTokenWithRetry store w)) = eventListeners w"
  "sockets (snd (getAuthTokenWithRetry store w)) = sockets w"
  "promises (snd (getAuthTokenWithRetry store w)) = promises w"
  by (simp_all add: getAuthTokenWithRetry_def split: prod.split)

lemma connect_reconnectAttempts [simp]:
  "reconnectAttempts (snd (connect env uid w)) = reconnectAttempts w"
proof -
  obtain t w1 where g: "getAuthTokenWithRetry (tokenStore env) w = (t, w1)" by force
  have "reconnectAttempts w1 = reconnectAttempts w"
    using token_fetch_frame(3)[of "tokenStore env" w] g by simp
  then show ?thesis
    by (simp add: connect_def g io_def new_promise_def console_error_def Let_def
        split: option.split)
qed

lemma connect_eventListeners [simp]:
  "eventListeners (snd (connect env uid w)) = eventListeners w"
proof -
  obtain t w1 where g: "getAuthTokenWithRetry (tokenStore env) w = (t, w1)" by force
  have "eventListeners w1 = eventListeners w"
    using token_fetch_frame(7)[of "tokenStore env" w] g by simp
  then show ?thesis
    by (simp add: connect_def g io_def new_promise_def console_error_def Let_def
        split: option.split)
qed

lemma invoke_frame [simp]:
  "reconnectAttempts (snd (invoke op w)) = reconnectAttempts w"
  "eventListeners (snd (invoke op w)) = eventListeners w"
  "socket (snd (invoke op w)) = socket w"
  "isConnected (snd (invoke op w)) = isConnected w"
  "currentUserId (snd (invoke op w)) = currentUserId w"
  "sockets (snd (invoke op w)) = sockets w"
  by (cases op; simp add: joinRoom_def leaveRoom_def sendMessage_def markMessageAsRead_def
      sendTypingStatus_def getActiveUsers_def sendChatInvitation_def acceptChatInvitation_def
      rejectChatInvitation_def console_error_def socket_emit_def sock_emit_def
      split: option.split)+

lemma emitEvent_frame [simp]:
  "reconnectAttempts (snd (emitEvent ev d w)) = reconnectAttempts w"
  "eventListeners (snd (emitEvent ev d w)) = eventListeners w"
  by (simp_all add: emitEvent_def console_error_def socket_emit_def sock_emit_def
      split: option.split)

lemma isAuthenticated_frame [simp]:
  "reconnectAttempts (snd (isAuthenticated env w)) = reconnectAttempts w"
  "eventListeners (snd (isAuthenticated env w)) = eventListeners w"
  by (simp_all add: isAuthenticated_def console_error_def Let_def split: store_reply.split)

lemma on_off_frame [simp]:
  "reconnectAttempts (on ev l w) = reconnectAttempts w"
  "reconnectAttempts (off ev l w) = reconnectAttempts w"
  "trace (on ev l w) = trace w"
  "trace (off ev l w) = trace w"
  by (simp_all add: on_def off_def Let_def split: option.split)

section \<open>The event registry\<close>

lemma forEach_Normal:
  assumes "\<And>x w. I w \<Longrightarrow> \<exists>w'. f x w = Normal w' \<and> I w'" and "I w"
  shows "\<exists>w'. forEach f xs w = Normal w' \<and> I w'"
  using assms(2)
proof (induction xs arbitrary: w)
  case Nil
  then show ?case by simp
next
  case (Cons x xs)
  from assms(1)[OF Cons.prems] obtain w1 where "f x w = Normal w1" "I w1" by blast
  with Cons.IH[of w1] show ?case by simp
qed

lemma guarded_call_eq:
  "guarded_call env event data l w =
     Normal (w\<lparr>trace := trace w @ call_effects env event data l\<rparr>)"
  by (simp add: guarded_call_def call_listener_def console_error_def record_effect_def
      call_effects_def)

lemma forEach_guarded_call:
  "forEach (guarded_call env event data) ls w =
     Normal (w\<lparr>trace := trace w @ concat (map (call_effects env event data) ls)\<rparr>)"
  by (induction ls arbitrary: w) (simp_all add: guarded_call_eq)

lemma emit_eq:
  "emit env event data w =
     Normal (w\<lparr>trace := trace w @ RegistryEmit event data #
                  concat (map (call_effects env event data) (listeners_of w event))\<rparr>)"
  by (simp add: emit_def record_effect_def listeners_of_def forEach_guarded_call
      split: option.split)

lemma filter_calls_concat:
  "filter is_ListenerCall (concat (map (call_effects env event data) ls)) =
     map (\<lambda>l. ListenerCall event l data) ls"
  by (induction ls) (simp_all add: call_effects_def)

lemma filter_errors_concat:
  "filter is_ConsoleError (concat (map (call_effects env event data) ls)) =
     map (\<lambda>l. ConsoleError ''Error in event listener'')
       (filter (\<lambda>l. listener_throws env l data) ls)"
  by (induction ls) (simp_all add: call_effects_def)

lemma listeners_of_off:
  "listeners_of (off e l w) e' =
     (if e' = e then removeAll l (listeners_of w e) else listeners_of w e')"
  by (auto simp add: off_def listeners_of_def set_delete_def Let_def update_conv' delete_conv'
      split: option.splits)

lemma listeners_of_on:
  "listeners_of (on e l w) e' =
     (if e' = e then set_add (listeners_of w e) l else listeners_of w e')"
  by (auto simp add: on_def listeners_of_def Let_def update_conv' split: option.splits)

text \<open>
  C5. Whatever listeners throw, \<open>emit\<close> completes normally: every listener registered for
  the event is called once with the emitted data, in registration order, also those
  that come after a listener that threw, and one error is logged for each listener that
  threw.
\<close>

theorem emit_survives_throwing_listener:
  "\<exists>w'. emit env event data w = Normal w' \<and>
     listener_calls w' =
       listener_calls w @ map (\<lambda>l. ListenerCall event l data) (listeners_of w event) \<and>
     logged_errors w' =
       logged_errors w @
         map (\<lambda>l. ConsoleError ''Error in event listener'')
           (filter (\<lambda>l. listener_throws env l data) (listeners_of w event))"
  by (simp add: emit_eq filter_calls_concat filter_errors_concat listener_calls_def
      logged_errors_def)

theorem emit_survives_throwing_listener_witness:
  "listeners_of two_listeners_world ''new_message'' = [1, 2] \<and>
   listener_throws first_throws 1 (JStr ''hi'') \<and>
   listener_calls
     (state_of (emit first_throws ''new_message'' (JStr ''hi'') two_listeners_world)) =
     [ListenerCall ''new_message'' 1 (JStr ''hi''), ListenerCall ''new_message'' 2 (JStr ''hi'')] \<and>
   logged_errors
     (state_of (emit first_throws ''new_message'' (JStr ''hi'') two_listeners_world)) =
     [ConsoleError ''Error in event listener'']"
proof -
  have v: "listeners_of two_listeners_world ''new_message'' = [1, 2]"
    "listener_calls two_listeners_world = []"
    "logged_errors two_listeners_world = []" by code_simp+
  from emit_survives_throwing_listener
    [of first_throws "''new_message''" "JStr ''hi''" two_listeners_world]
  show ?thesis using v by (auto simp add: state_of_def first_throws_def)
qed

section \<open>Socket events and disconnect\<close>

text \<open>No socket callback throws, and none writes the socket handle, the cached user id,
  the reconnection settings or the registry.\<close>

lemma run_handler_same_settings:
  "same_settings w0 w \<Longrightarrow> \<exists>w'. run_handler env d h w = Normal w' \<and> same_settings w0 w'"
  by (cases h) (simp_all add: emit_eq same_settings_def console_error_def)

lemma socket_event_same_settings:
  "\<exists>w'. socket_event env r ev d w = Normal w' \<and> same_settings w w'"
proof (cases "sock_get w r")
  case None
  then show ?thesis by (simp add: socket_event_def same_settings_def)
next
  case (Some s)
  define w1 where
    "w1 = (if ev = ''connect'' then sock_upd r (\<lambda>s. s\<lparr>sock_connected := True\<rparr>) w
           else if ev = ''disconnect'' then sock_upd r (\<lambda>s. s\<lparr>sock_connected := False\<rparr>) w
           else w)"
  have "same_settings w w1" by (simp add: w1_def same_settings_def)
  from forEach_Normal[where I = "same_settings w" and f = "run_handler env d",
      OF run_handler_same_settings this]
  obtain w' where "forEach (run_handler env d) (callbacks_for s ev) w1 = Normal w'"
    "same_settings w w'" by blast
  then show ?thesis using Some by (simp add: socket_event_def w1_def Let_def)
qed

lemma sock_disconnect_same_settings:
  "\<exists>w'. sock_disconnect env r w = Normal w' \<and> same_settings w w'"
  using socket_event_same_settings
    [of env r "''disconnect''" "JStr ''io client disconnect''"
        "record_effect (SocketDisconnect r) w"]
  by (auto simp add: sock_disconnect_def Let_def same_settings_def split: option.split)

lemma disconnect_no_socket: "socket w = None \<Longrightarrow> disconnect env w = Normal w"
  by (simp add: disconnect_def)

lemma disconnect_with_socket:
  "socket w = Some r \<Longrightarrow>
   \<exists>w1. sock_disconnect env r w = Normal w1 \<and> same_settings w w1 \<and>
        disconnect env w =
          Normal (w1\<lparr>socket := None, isConnected := False, currentUserId := None\<rparr>)"
  using sock_disconnect_same_settings[of env r w] by (auto simp add: disconnect_def)

lemma disconnect_Normal:
  "\<exists>w1. disconnect env w = Normal w1 \<and> socket w1 = None \<and>
        currentUserId w1 = (if socket w = None then currentUserId w else None) \<and>
        eventListeners w1 = eventListeners w \<and> reconnectDelay w1 = reconnectDelay w \<and>
        maxReconnectAttempts w1 = maxReconnectAttempts w"
proof (cases "socket w")
  case None
  then show ?thesis by (simp add: disconnect_no_socket)
next
  case (Some r)
  from disconnect_with_socket[OF this, of env] show ?thesis
    using Some by (auto simp add: same_settings_def)
qed

section \<open>The reconnect-attempt counter\<close>

lemma run_handler_reconnectAttempts:
  "reconnectAttempts w = 0 \<Longrightarrow>
   \<exists>w'. run_handler env d h w = Normal w' \<and> reconnectAttempts w' = 0"
  by (cases h) (simp_all add: emit_eq console_error_def)

lemma socket_event_reconnectAttempts:
  assumes "reconnectAttempts w = 0"
  shows "reconnectAttempts (state_of (socket_event env r ev d w)) = 0"
proof (cases "sock_get w r")
  case None
  then show ?thesis using assms by (simp add: socket_event_def state_of_def)
next
  case (Some s)
  define w1 where
    "w1 = (if ev = ''connect'' then sock_upd r (\<lambda>s. s\<lparr>sock_connected := True\<rparr>) w
           else if ev = ''disconnect'' then sock_upd r (\<lambda>s. s\<lparr>sock_connected := False\<rparr>) w
           else w)"
  have "reconnectAttempts w1 = 0" using assms by (simp add: w1_def)
  from forEach_Normal[where I = "\<lambda>w. reconnectAttempts w = 0" and f = "run_handler env d",
      OF run_handler_reconnectAttempts this]
  obtain w' where "forEach (run_handler env d) (callbacks_for s ev) w1 = Normal w'"
    "reconnectAttempts w' = 0" by blast
  then show ?thesis using Some by (simp add: socket_event_def state_of_def w1_def Let_def)
qed

lemma sock_disconnect_reconnectAttempts:
  assumes "reconnectAttempts w = 0"
  shows "reconnectAttempts (state_of (sock_disconnect env r w)) = 0"
proof -
  have "reconnectAttempts (record_effect (SocketDisconnect r) w) = 0" using assms by simp
  from socket_event_reconnectAttempts[OF this, of env r "''disconnect''"] assms
  show ?thesis by (simp add: sock_disconnect_def Let_def split: option.split)
qed

lemma disconnect_reconnectAttempts:
  assumes "reconnectAttempts w = 0"
  shows "reconnectAttempts (state_of (disconnect env w)) = 0"
proof (cases "socket w")
  case None
  then show ?thesis using assms by (simp add: disconnect_no_socket)
next
  case (Some r)
  from disconnect_with_socket[OF this, of env] obtain w1 where
    "sock_disconnect env r w = Normal w1"
    "disconnect env w =
       Normal (w1\<lparr>socket := None, isConnected := False, currentUserId := None\<rparr>)" by blast
  then show ?thesis using sock_disconnect_reconnectAttempts[OF assms, of env r] by simp
qed

lemma reconnect_reconnectAttempts:
  assumes "reconnectAttempts w = 0"
  shows "reconnectAttempts (snd (reconnect env w)) = 0"
proof -
  from disconnect_Normal[of env w] obtain w1 where d: "disconnect env w = Normal w1" by blast
  have "reconnectAttempts w1 = 0" using disconnect_reconnectAttempts[OF assms, of env] d by simp
  then show ?thesis by (simp add: reconnect_def d Let_def)
qed

lemma perform_reconnectAttempts:
  "reconnectAttempts w = 0 \<Longrightarrow> reconnectAttempts (perform env a w) = 0"
  by (cases a) (simp_all add: socket_event_reconnectAttempts disconnect_reconnectAttempts
      reconnect_reconnectAttempts)

text \<open>
  C9. In every state the service can reach, the reconnect-attempt counter is 0, and so
  is the \<open>reconnectAttempts\<close> reported by \<open>getConnectionStatus\<close>.
\<close>

theorem reconnectAttempts_always_zero:
  "reachable w \<Longrightarrow>
     reconnectAttempts w = 0 \<and> status_reconnectAttempts (getConnectionStatus w) = 0"
proof (induction rule: reachable.induct)
  case (start attempts delay)
  show ?case by (simp add: initial_def getConnectionStatus_def)
next
  case (step w env a)
  then show ?case by (simp add: perform_reconnectAttempts getConnectionStatus_def)
qed

theorem reconnectAttempts_always_zero_witness:
  "reachable live_world \<and> reconnectAttempts live_world = 0 \<and>
   status_reconnectAttempts (getConnectionStatus live_world) = 0"
proof -
  have r: "reachable live_world"
    unfolding live_world_def run.simps by (intro reachable.step reachable.start)
  show ?thesis using r reconnectAttempts_always_zero [OF r] by simp
qed

section \<open>Token retrieval and the token-failure path of connect\<close>

lemma fetches_append: "fetches (xs @ ys) = fetches xs + fetches ys"
  by (induction xs rule: fetches.induct) simp_all

lemma delays_append: "delays (xs @ ys) = delays xs @ delays ys"
  by (induction xs rule: delays.induct) simp_all

lemma token_loop_done:
  "\<not> i < m \<Longrightarrow> getAuthTokenWithRetry_from store m d i tr = (None, tr)"
  by (subst getAuthTokenWithRetry_from.simps) simp

lemma token_loop_step:
  "i < m \<Longrightarrow> no_token (store i) \<Longrightarrow>
   getAuthTokenWithRetry_from store m d i tr =
     getAuthTokenWithRetry_from store m d (Suc i)
       (tr @ GetItemAsync #
          (if store i = Rejected then [ConsoleError ''Error getting auth token''] else []) @
          (if i < m - 1 then [SetTimeout d] else []))"
  by (subst getAuthTokenWithRetry_from.simps) (cases "store i"; simp add: Let_def)

text \<open>
  With no token from index \<open>i\<close> on, the loop reads the store once for each remaining index,
  waits between two reads but not after the last, and returns null.
\<close>

lemma token_loop_no_token:
  "\<forall>j. i \<le> j \<and> j < m \<longrightarrow> no_token (store j) \<Longrightarrow> n = m - i \<Longrightarrow>
   \<exists>ext. getAuthTokenWithRetry_from store m d i tr = (None, tr @ ext) \<and>
         fetches ext = m - i \<and> delays ext = replicate (m - 1 - i) d"
proof (induction n arbitrary: i tr)
  case 0
  then have "\<not> i < m" by simp
  then show ?case by (simp add: token_loop_done)
next
  case (Suc n)
  then have lt: "i < m" and nt: "no_token (store i)" by auto
  let ?tr = "tr @ GetItemAsync #
          (if store i = Rejected then [ConsoleError ''Error getting auth token''] else []) @
          (if i < m - 1 then [SetTimeout d] else [])"
  from Suc.prems have "\<forall>j. Suc i \<le> j \<and> j < m \<longrightarrow> no_token (store j)" "n = m - Suc i"
    by auto
  from Suc.IH[OF this, of ?tr] obtain ext where
    e: "getAuthTokenWithRetry_from store m d (Suc i) ?tr = (None, ?tr @ ext)"
      "fetches ext = m - Suc i" "delays ext = replicate (m - 1 - Suc i) d" by blast
  let ?ext = "GetItemAsync #
          (if store i = Rejected then [ConsoleError ''Error getting auth token''] else []) @
          (if i < m - 1 then [SetTimeout d] else []) @ ext"
  have "getAuthTokenWithRetry_from store m d i tr = (None, tr @ ?ext)"
    using token_loop_step[of i m store d tr] lt nt e(1) by simp
  moreover have "fetches ?ext = m - i" using e(2) lt by (auto simp add: fetches_append)
  moreover have "delays ?ext = replicate (m - 1 - i) d"
  proof (cases "i < m - 1")
    case True
    then have "m - 1 - i = Suc (m - 1 - Suc i)" by simp
    then show ?thesis using e(3) True by (simp add: delays_append)
  next
    case False
    then show ?thesis using e(3) lt by (simp add: delays_append)
  qed
  ultimately show ?case by blast
qed

lemma getAuthTokenWithRetry_no_token:
  assumes "\<forall>i<3. no_token (store i)"
  shows "getAuthTokenWithRetry store w =
           (None, w\<lparr>trace := trace w @
              attempt_effects store 0 @ [SetTimeout 1000] @
              attempt_effects store 1 @ [SetTimeout 1000] @
              attempt_effects store 2\<rparr>)"
proof -
  have n: "no_token (store 0)" "no_token (store (Suc 0))" "no_token (store (Suc (Suc 0)))"
    using assms by simp_all
  let ?t0 = "trace w"
  let ?t1 = "?t0 @ attempt_effects store 0 @ [SetTimeout 1000]"
  let ?t2 = "?t1 @ attempt_effects store (Suc 0) @ [SetTimeout 1000]"
  let ?t3 = "?t2 @ attempt_effects store (Suc (Suc 0))"
  have "getAuthTokenWithRetry_from store 3 1000 0 ?t0 =
        getAuthTokenWithRetry_from store 3 1000 (Suc 0) ?t1"
    using token_loop_step[of 0 3 store 1000 ?t0] n(1) by (simp add: attempt_effects_def)
  also have "\<dots> = getAuthTokenWithRetry_from store 3 1000 (Suc (Suc 0)) ?t2"
    using token_loop_step[of "Suc 0" 3 store 1000 ?t1] n(2) by (simp add: attempt_effects_def)
  also have "\<dots> = getAuthTokenWithRetry_from store 3 1000 (Suc (Suc (Suc 0))) ?t3"
    using token_loop_step[of "Suc (Suc 0)" 3 store 1000 ?t2] n(3)
    by (simp add: attempt_effects_def)
  also have "\<dots> = (None, ?t3)"
    by (rule token_loop_done) simp
  finally show ?thesis by (simp add: getAuthTokenWithRetry_def numeral_2_eq_2)
qed

lemma fetches_attempt [simp]: "fetches (attempt_effects store i) = 1"
  by (simp add: attempt_effects_def)

lemma delays_attempt [simp]: "delays (attempt_effects store i) = []"
  by (simp add: attempt_effects_def)

lemma not_connected_initial: "\<not> socket_connected (initial attempts delay)"
  by (simp add: socket_connected_def initial_def)

lemma never_token_no_token: "\<forall>i<3. no_token (tokenStore never_token i)"
  by (simp add: never_token_def)

text \<open>
  C3. When \<open>connect\<close> gets to the token retrieval (the service is not already connected)
  and the secure store gives no token on any attempt (an absent value, an empty string
  or a rejected read), \<open>connect\<close> makes three attempts, each one read of the store (with
  an error logged when the read was rejected), waits 1000 ms after the first attempt and
  1000 ms after the second and not after the third, logs that no token was found and
  resolves \<open>false\<close>; no exception leaves it. The trace of the call is exactly that.
\<close>

theorem connect_without_token_resolves_false:
  assumes "\<not> socket_connected w" and "\<forall>i<3. no_token (tokenStore env i)"
  shows "fst (connect env uid w) = Resolved False \<and>
         trace (snd (connect env uid w)) =
           trace w @
             attempt_effects (tokenStore env) 0 @ [SetTimeout 1000] @
             attempt_effects (tokenStore env) 1 @ [SetTimeout 1000] @
             attempt_effects (tokenStore env) 2 @
             [ConsoleError ''No auth token found for WebSocket connection after retries''] \<and>
         fetches (trace (snd (connect env uid w))) = fetches (trace w) + 3 \<and>
         delays (trace (snd (connect env uid w))) = delays (trace w) @ [1000, 1000]"
  using assms(1) getAuthTokenWithRetry_no_token[OF assms(2), of w]
  by (simp add: connect_def console_error_def record_effect_def fetches_append delays_append)

theorem connect_without_token_resolves_false_witness:
  "\<not> socket_connected (initial 5 1000) \<and>
   no_token (tokenStore never_token 0) \<and> no_token (tokenStore never_token 1) \<and>
   no_token (tokenStore never_token 2) \<and>
   fst (connect never_token (Some ''u1'') (initial 5 1000)) = Resolved False \<and>
   trace (snd (connect never_token (Some ''u1'') (initial 5 1000))) =
     [GetItemAsync, SetTimeout 1000, GetItemAsync, SetTimeout 1000, GetItemAsync,
      ConsoleError ''No auth token found for WebSocket connection after retries''] \<and>
   fetches (trace (snd (connect never_token (Some ''u1'') (initial 5 1000)))) = 3 \<and>
   delays (trace (snd (connect never_token (Some ''u1'') (initial 5 1000)))) = [1000, 1000]"
proof -
  have t: "trace (initial 5 1000) = []" by (simp add: initial_def)
  from connect_without_token_resolves_false
    [of "initial 5 1000" never_token "Some ''u1''", OF not_connected_initial never_token_no_token]
  show ?thesis using not_connected_initial[of 5 1000]
    by (simp add: t never_token_def attempt_effects_def)
qed

text \<open>
  C10. From a state that is not already connected, when the token retrieval ends
  without a token, \<open>connect\<close> returns \<open>false\<close> and the socket handle, the cached user id and
  the listener registry are what they were before the call (as are the connected flag,
  the sockets and the promises): the \<open>userId\<close> argument is not stored.
\<close>

theorem connect_token_failure_unchanged:
  assumes "\<not> socket_connected w"
    and "fst (getAuthTokenWithRetry (tokenStore env) w) = None"
  shows "fst (connect env uid w) = Resolved False \<and>
         socket (snd (connect env uid w)) = socket w \<and>
         currentUserId (snd (connect env uid w)) = currentUserId w \<and>
         eventListeners (snd (connect env uid w)) = eventListeners w \<and>
         isConnected (snd (connect env uid w)) = isConnected w \<and>
         sockets (snd (connect env uid w)) = sockets w \<and>
         promises (snd (connect env uid w)) = promises w"
proof -
  obtain w1 where g: "getAuthTokenWithRetry (tokenStore env) w = (None, w1)"
    using assms(2) by (cases "getAuthTokenWithRetry (tokenStore env) w") simp
  have "w1 = snd (getAuthTokenWithRetry (tokenStore env) w)" using g by simp
  then have "socket w1 = socket w" "currentUserId w1 = currentUserId w"
    "eventListeners w1 = eventListeners w" "isConnected w1 = isConnected w"
    "sockets w1 = sockets w" "promises w1 = promises w" by simp_all
  then show ?thesis using assms(1) g by (simp add: connect_def console_error_def)
qed

theorem connect_token_failure_unchanged_witness:
  "\<not> socket_connected pending_world \<and>
   fst (getAuthTokenWithRetry (tokenStore never_token) pending_world) = None \<and>
   fst (connect never_token (Some ''u2'') pending_world) = Resolved False \<and>
   socket (snd (connect never_token (Some ''u2'') pending_world)) = Some 0 \<and>
   currentUserId (snd (connect never_token (Some ''u2'') pending_world)) = Some ''u1'' \<and>
   eventListeners (snd (connect never_token (Some ''u2'') pending_world)) =
     [(''new_message'', [7])]"
proof -
  have h1: "\<not> socket_connected pending_world" by code_simp
  have h2: "fst (getAuthTokenWithRetry (tokenStore never_token) pending_world) = None"
    using getAuthTokenWithRetry_no_token[OF never_token_no_token, of pending_world] by auto
  have v: "socket pending_world = Some 0" "currentUserId pending_world = Some ''u1''"
    "eventListeners pending_world = [(''new_message'', [7])]" by code_simp+
  from connect_token_failure_unchanged[OF h1 h2, of "Some ''u2''"] h1 h2 v
  show ?thesis by simp
qed

section \<open>Guarded operations\<close>

text \<open>
  C2 (amended). For each of the nine guarded operations, in every state where the
  service has no socket or the socket's own \<open>connected\<close> flag is not set, the operation
  returns \<open>false\<close> or nothing and emits nothing on the socket.
\<close>

theorem guarded_op_fails_when_socket_down:
  assumes "\<not> socket_connected w"
  shows "(fst (invoke op w) = Some False \<or> fst (invoke op w) = None) \<and>
         outbound (snd (invoke op w)) = outbound w"
  using assms
  by (cases op) (simp_all add: joinRoom_def leaveRoom_def sendMessage_def markMessageAsRead_def
      sendTypingStatus_def getActiveUsers_def sendChatInvitation_def acceptChatInvitation_def
      rejectChatInvitation_def console_error_def outbound_def)

theorem guarded_op_fails_when_socket_down_witness:
  "\<not> socket_connected (initial 5 1000) \<and>
   fst (invoke (SendChatInvitation ''u2'' ''hi'') (initial 5 1000)) = Some False \<and>
   outbound (snd (invoke (SendChatInvitation ''u2'' ''hi'') (initial 5 1000))) = []"
proof -
  have o: "outbound (initial 5 1000) = []" by (simp add: outbound_def initial_def)
  from guarded_op_fails_when_socket_down
    [of "initial 5 1000" "SendChatInvitation ''u2'' ''hi''", OF not_connected_initial]
  show ?thesis using not_connected_initial[of 5 1000] by (simp add: o sendChatInvitation_def)
qed

text \<open>
  The operations test the socket's flag only, the \<open>connected\<close> getter also tests the
  service's own flag. Where the socket is connected and the service's flag is down, the
  getter is false and \<open>sendMessage\<close> still emits and returns \<open>true\<close>.
\<close>

theorem guarded_emit_while_getter_false:
  "connected stale_flag_world = False \<and>
   outbound stale_flag_world = [] \<and>
   fst (invoke (SendMessage ''u2'' ''hi'' None) stale_flag_world) = Some True \<and>
   outbound (snd (invoke (SendMessage ''u2'' ''hi'' None) stale_flag_world)) =
     [SocketEmit 1 ''send_message''
        (JObj [(''recipientId'', JStr ''u2''), (''content'', JStr ''hi''),
               (''type'', JStr ''TEXT'')])]"
  by code_simp

section \<open>Disconnect and reconnect\<close>

text \<open>
  C7 (amended). \<open>disconnect\<close> throws nothing and always leaves the socket handle null.
  When a socket handle was present it also leaves the cached user id null and the
  connected flag down; when none was present it changes nothing. It is idempotent: a
  second call throws nothing and leaves the state of the first.
\<close>

theorem disconnect_clears_and_idempotent:
  "\<exists>w1. disconnect env w = Normal w1 \<and>
     socket w1 = None \<and>
     (socket w \<noteq> None \<longrightarrow> currentUserId w1 = None \<and> \<not> isConnected w1) \<and>
     (socket w = None \<longrightarrow> w1 = w) \<and>
     disconnect env' w1 = Normal w1"
proof (cases "socket w")
  case None
  then show ?thesis by (simp add: disconnect_no_socket)
next
  case (Some r)
  from disconnect_with_socket[OF this, of env] obtain w0 where
    d: "disconnect env w =
          Normal (w0\<lparr>socket := None, isConnected := False, currentUserId := None\<rparr>)"
    by blast
  let ?w1 = "w0\<lparr>socket := None, isConnected := False, currentUserId := None\<rparr>"
  have "disconnect env' ?w1 = Normal ?w1" by (rule disconnect_no_socket) simp
  then show ?thesis using d Some by simp
qed

theorem disconnect_clears_and_idempotent_witness:
  "socket live_world = Some 0 \<and> currentUserId live_world = Some ''u1'' \<and>
   socket (state_of (disconnect with_token live_world)) = None \<and>
   currentUserId (state_of (disconnect with_token live_world)) = None \<and>
   disconnect with_token (state_of (disconnect with_token live_world)) =
     disconnect with_token live_world \<and>
   socket (initial 5 1000) = None \<and>
   disconnect with_token (initial 5 1000) = Normal (initial 5 1000)"
proof -
  have v: "socket live_world = Some 0" "currentUserId live_world = Some ''u1''"
    "socket (initial 5 1000) = None" by code_simp+
  from disconnect_clears_and_idempotent[of with_token live_world with_token]
    disconnect_clears_and_idempotent[of with_token "initial 5 1000" with_token] v
  show ?thesis by auto
qed

text \<open>
  Where \<open>io(...)\<close> threw inside \<open>connect\<close>, the user id is stored and no socket is: there
  \<open>disconnect\<close> does nothing and the cached user id stays.
\<close>

theorem disconnect_keeps_user_id_without_socket:
  "socket failed_open_world = None \<and>
   currentUserId failed_open_world = Some ''u1'' \<and>
   socket (state_of (disconnect with_token failed_open_world)) = None \<and>
   currentUserId (state_of (disconnect with_token failed_open_world)) = Some ''u1''"
  by code_simp

lemma reconnect_arg_eq:
  "reconnect_arg env w = (if socket w = None then or_null (currentUserId w) else None)"
proof -
  from disconnect_Normal[of env w] obtain w1 where "disconnect env w = Normal w1"
    "currentUserId w1 = (if socket w = None then currentUserId w else None)" by blast
  then show ?thesis by (auto simp add: reconnect_arg_def or_null_def truthy_def)
qed

lemma reconnect_eq:
  "reconnect env w =
     connect env (reconnect_arg env w)
       (record_effect (SetTimeout (reconnectDelay w)) (state_of (disconnect env w)))"
proof -
  from disconnect_Normal[of env w] obtain w1 where "disconnect env w = Normal w1"
    "reconnectDelay w1 = reconnectDelay w" by blast
  then show ?thesis by (simp add: reconnect_def reconnect_arg_def Let_def)
qed

text \<open>
  C1. \<open>reconnect\<close> reads the user id after \<open>disconnect\<close> has cleared it. On the service
  connected as \<open>u1\<close>, with a token in the store, \<open>reconnect\<close> calls \<open>connect\<close> with no user
  id: the new socket is opened with a null user id in its auth payload and the cached
  user id is null afterwards.
\<close>

theorem reconnect_forgets_user_id:
  "currentUserId live_world = Some ''u1'' \<and>
   reconnect_arg with_token live_world = None \<and>
   fst (reconnect with_token live_world) = Pending 1 \<and>
   map auth_userId (sockets (snd (reconnect with_token live_world))) = [Some ''u1'', None] \<and>
   currentUserId (snd (reconnect with_token live_world)) = None"
  by code_simp

section \<open>Inbound events\<close>

text \<open>
  C6. \<open>setupEventListeners\<close> registers a callback for \<open>room_joined\<close> twice (and for
  \<open>room_left\<close> twice). After one successful \<open>connect\<close>, with listener 7 subscribed to
  \<open>room_joined\<close>, one delivery of \<open>room_joined\<close> on the socket goes through the registry
  twice and calls the listener twice; one delivery of \<open>new_message\<close> goes through once.
\<close>

theorem room_joined_delivered_twice:
  "registry_emits (state_of (socket_event with_token 0 ''room_joined'' (JStr ''r1'')
        (on ''room_joined'' 7 live_world))) =
     [RegistryEmit ''room_joined'' (JStr ''r1''), RegistryEmit ''room_joined'' (JStr ''r1'')] \<and>
   listener_calls (state_of (socket_event with_token 0 ''room_joined'' (JStr ''r1'')
        (on ''room_joined'' 7 live_world))) =
     [ListenerCall ''room_joined'' 7 (JStr ''r1''),
      ListenerCall ''room_joined'' 7 (JStr ''r1'')] \<and>
   registry_emits (state_of (socket_event with_token 0 ''new_message'' (JStr ''m1'')
        (on ''new_message'' 7 live_world))) =
     [RegistryEmit ''new_message'' (JStr ''m1'')]"
  by code_simp

section \<open>Status after a fresh connect\<close>

lemma sock_get_sock_upd:
  "sock_get (sock_upd r f w) r' =
     (if r' = r then map_option f (sock_get w r) else sock_get w r')"
  by (simp add: sock_get_def sock_upd_def)

lemma socket_connected_sock_on [simp]:
  "socket_connected (sock_on r ev h w) = socket_connected w"
  by (simp add: socket_connected_def sock_on_def sock_get_sock_upd split: option.split)

lemma socket_connected_setup [simp]:
  "socket_connected (setupEventListeners w) = socket_connected w"
  by (simp add: setupEventListeners_def split: option.split)

lemma socket_connected_resolve [simp]:
  "socket_connected (resolve p b w) = socket_connected w"
  by (simp add: socket_connected_def sock_get_def split: option.split)

lemma promise_state_resolve:
  "promise_state w p = None \<Longrightarrow> p < length (promises w) \<Longrightarrow>
   promise_state (resolve p b w) p = Some b"
  by (simp add: promise_state_def resolve_def)

lemma connect_fresh:
  assumes "\<not> socket_connected w"
    and "getAuthTokenWithRetry (tokenStore env) w = (Some token, w0)"
    and "\<not> io_throws env"
  shows "connect env uid w = (Pending (length (promises w0)), opened token uid w0)"
  using assms
  by (simp add: connect_def io_def new_promise_def Let_def sock_on_def sock_upd_def
      record_effect_def opened_def)

lemma connect_event_on_opened:
  "socket_event env' (length (sockets w)) ''connect'' data (opened token uid w) =
     Normal (resolve (length (promises w)) True
       (setupEventListeners
         ((sock_upd (length (sockets w)) (\<lambda>s. s\<lparr>sock_connected := True\<rparr>) (opened token uid w))
            \<lparr>isConnected := True, reconnectAttempts := 0\<rparr>)))"
  by (simp add: socket_event_def sock_get_def opened_def callbacks_for_def)

text \<open>
  C8 (amended). When \<open>connect(userId)\<close> is called on a service that is not already
  connected, a token is found and the socket is opened, \<open>connect\<close> hands back a pending
  promise; when the \<open>connect\<close> event of the new socket arrives next, the promise resolves
  \<open>true\<close> and \<open>getConnectionStatus\<close> reports \<open>connected: true\<close> and the user id passed to
  \<open>connect\<close>, an absent or empty one being reported as null.
\<close>

theorem status_after_fresh_connect:
  assumes "\<not> socket_connected w"
    and "fst (getAuthTokenWithRetry (tokenStore env) w) = Some token"
    and "\<not> io_throws env"
  shows "\<exists>p w1 w2.
           connect env uid w = (Pending p, w1) \<and>
           socket w1 = Some (length (sockets w)) \<and>
           promise_state w1 p = None \<and>
           socket_event env' (length (sockets w)) ''connect'' data w1 = Normal w2 \<and>
           promise_state w2 p = Some True \<and>
           getConnectionStatus w2 =
             \<lparr>status_connected = True, status_reconnectAttempts = 0,
              status_userId = or_null uid\<rparr>"
proof -
  obtain w0 where g: "getAuthTokenWithRetry (tokenStore env) w = (Some token, w0)"
    using assms(2) by (cases "getAuthTokenWithRetry (tokenStore env) w") simp
  have "w0 = snd (getAuthTokenWithRetry (tokenStore env) w)" using g by simp
  then have same: "sockets w0 = sockets w" "promises w0 = promises w" by simp_all
  let ?p = "length (promises w0)"
  let ?w1 = "opened token uid w0"
  let ?w2 = "resolve ?p True
       (setupEventListeners
         ((sock_upd (length (sockets w0)) (\<lambda>s. s\<lparr>sock_connected := True\<rparr>) ?w1)
            \<lparr>isConnected := True, reconnectAttempts := 0\<rparr>))"
  have c: "connect env uid w = (Pending ?p, ?w1)"
    by (rule connect_fresh[OF assms(1) g assms(3)])
  have s: "socket ?w1 = Some (length (sockets w))" by (simp add: opened_def same)
  have p1: "promise_state ?w1 ?p = None" by (simp add: promise_state_def opened_def)
  have e: "socket_event env' (length (sockets w)) ''connect'' data ?w1 = Normal ?w2"
    using connect_event_on_opened[of env' w0 data token uid] by (simp add: same)
  have p2: "promise_state ?w2 ?p = Some True"
    by (rule promise_state_resolve) (simp_all add: promise_state_def opened_def)
  have "socket_connected
          ((sock_upd (length (sockets w0)) (\<lambda>s. s\<lparr>sock_connected := True\<rparr>) ?w1)
            \<lparr>isConnected := True, reconnectAttempts := 0\<rparr>)"
    by (simp add: socket_connected_def sock_get_def sock_upd_def opened_def)
  then have "socket_connected ?w2" by simp
  then have st: "getConnectionStatus ?w2 =
             \<lparr>status_connected = True, status_reconnectAttempts = 0,
              status_userId = or_null uid\<rparr>"
    by (simp add: getConnectionStatus_def connected_def opened_def)
  from c s p1 e p2 st show ?thesis by blast
qed

theorem status_after_fresh_connect_witness:
  "\<not> socket_connected (initial 5 1000) \<and>
   fst (getAuthTokenWithRetry (tokenStore with_token) (initial 5 1000)) = Some ''tok'' \<and>
   \<not> io_throws with_token \<and>
   getConnectionStatus live_world =
     \<lparr>status_connected = True, status_reconnectAttempts = 0, status_userId = Some ''u1''\<rparr>"
proof -
  have h2: "fst (getAuthTokenWithRetry (tokenStore with_token) (initial 5 1000)) = Some ''tok''"
    by code_simp
  have h3: "\<not> io_throws with_token" by (simp add: with_token_def)
  have n: "length (sockets (initial 5 1000)) = 0" by (simp add: initial_def)
  from status_after_fresh_connect
    [of "initial 5 1000" with_token "''tok''" "Some ''u1''" with_token JUndefined,
     OF not_connected_initial h2 h3]
  obtain p w1 w2 where
    c: "connect with_token (Some ''u1'') (initial 5 1000) = (Pending p, w1)" and
    e: "socket_event with_token 0 ''connect'' JUndefined w1 = Normal w2" and
    st: "getConnectionStatus w2 =
          \<lparr>status_connected = True, status_reconnectAttempts = 0,
           status_userId = or_null (Some ''u1'')\<rparr>"
    unfolding n by blast
  have "live_world = w2" by (simp add: live_world_def c e state_of_def)
  then show ?thesis using st h2 h3 not_connected_initial[of 5 1000]
    by (simp add: or_null_def truthy_def)
qed

text \<open>
  On a service already connected as \<open>u1\<close>, \<open>connect('u2')\<close> returns \<open>true\<close> at once and
  stores nothing: the status still reports \<open>u1\<close>.
\<close>

theorem connect_already_connected_keeps_user_id:
  "fst (connect with_token (Some ''u2'') live_world) = Resolved True \<and>
   status_connected
     (getConnectionStatus (snd (connect with_token (Some ''u2'') live_world))) = True \<and>
   status_userId
     (getConnectionStatus (snd (connect with_token (Some ''u2'') live_world))) = Some ''u1''"
  by code_simp

section \<open>Unsubscribing\<close>

lemma token_loop_filter:
  assumes "\<not> P GetItemAsync" and "\<And>d. \<not> P (SetTimeout d)" and "\<And>m. \<not> P (ConsoleError m)"
  shows "filter P (snd (getAuthTokenWithRetry_from store m d i tr)) = filter P tr"
proof (induction store m d i tr rule: getAuthTokenWithRetry_from.induct)
  case (1 store maxRetries delay i tr)
  show ?case
  proof (cases "i < maxRetries")
    case False
    then show ?thesis by (subst getAuthTokenWithRetry_from.simps) simp
  next
    case True
    show ?thesis
    proof (cases "store i")
      case (Found token)
      then show ?thesis using True 1(1)[OF True refl refl Found] assms
        by (subst getAuthTokenWithRetry_from.simps) (simp add: Let_def)
    next
      case Missing
      then show ?thesis using True 1(2)[OF True refl refl Missing] assms
        by (subst getAuthTokenWithRetry_from.simps) (simp add: Let_def)
    next
      case Rejected
      then show ?thesis using True 1(3)[OF True refl refl Rejected] assms
        by (subst getAuthTokenWithRetry_from.simps) (simp add: Let_def)
    qed
  qed
qed

lemma token_fetch_calls_to:
  "calls_to e l (snd (getAuthTokenWithRetry store w)) = calls_to e l w"
proof -
  have "filter (is_call_to e l) (snd (getAuthTokenWithRetry_from store 3 1000 0 (trace w))) =
        filter (is_call_to e l) (trace w)"
    by (rule token_loop_filter) simp_all
  then show ?thesis by (auto simp add: getAuthTokenWithRetry_def calls_to_def split: prod.split)
qed

lemma calls_to_record_effect:
  "\<not> is_call_to e l x \<Longrightarrow> calls_to e l (record_effect x w) = calls_to e l w"
  by (simp add: calls_to_def)

lemma connect_calls_to: "calls_to e l (snd (connect env uid w)) = calls_to e l w"
proof -
  obtain t w1 where g: "getAuthTokenWithRetry (tokenStore env) w = (t, w1)" by force
  have "calls_to e l w1 = calls_to e l w"
    using token_fetch_calls_to[of e l "tokenStore env" w] g by simp
  then show ?thesis
    by (simp add: connect_def g io_def new_promise_def console_error_def Let_def calls_to_def
        split: option.split)
qed

lemma invoke_calls_to: "calls_to e l (snd (invoke op w)) = calls_to e l w"
  by (cases op; simp add: joinRoom_def leaveRoom_def sendMessage_def markMessageAsRead_def
      sendTypingStatus_def getActiveUsers_def sendChatInvitation_def acceptChatInvitation_def
      rejectChatInvitation_def console_error_def socket_emit_def sock_emit_def calls_to_def
      split: option.split)

lemma emitEvent_calls_to: "calls_to e l (snd (emitEvent ev d w)) = calls_to e l w"
  by (simp add: emitEvent_def console_error_def socket_emit_def sock_emit_def calls_to_def
      split: option.split)

lemma isAuthenticated_calls_to: "calls_to e l (snd (isAuthenticated env w)) = calls_to e l w"
  by (simp add: isAuthenticated_def console_error_def Let_def calls_to_def
      split: store_reply.split)

lemma no_call_to_in_effects:
  "ev \<noteq> e \<or> l \<notin> set ls \<Longrightarrow>
   filter (is_call_to e l) (concat (map (call_effects env ev d) ls)) = []"
  by (induction ls) (auto simp add: call_effects_def)

text \<open>A listener that is not subscribed to \<open>e\<close> is not called for \<open>e\<close> by any \<open>emit\<close>.\<close>

lemma emit_quiet:
  assumes "l \<notin> set (listeners_of w e)"
  shows "\<exists>w'. emit env ev d w = Normal w' \<and> eventListeners w' = eventListeners w \<and>
              calls_to e l w' = calls_to e l w"
proof -
  have "ev \<noteq> e \<or> l \<notin> set (listeners_of w ev)" using assms by auto
  from no_call_to_in_effects[OF this] show ?thesis
    by (simp add: emit_eq calls_to_def)
qed

lemma run_handler_quiet:
  assumes "l \<notin> set (listeners_of w0 e)"
    and "eventListeners w = eventListeners w0 \<and> calls_to e l w = calls_to e l w0"
  shows "\<exists>w'. run_handler env d h w = Normal w' \<and>
              (eventListeners w' = eventListeners w0 \<and> calls_to e l w' = calls_to e l w0)"
proof (cases h)
  case (On_connect p)
  then show ?thesis using assms(2) by (simp add: calls_to_def)
next
  case (On_connect_error p)
  then show ?thesis using assms(2) by (simp add: calls_to_def console_error_def)
next
  case On_disconnect
  have "l \<notin> set (listeners_of (w\<lparr>isConnected := False\<rparr>) e)"
    using assms by (simp add: listeners_of_def)
  from emit_quiet[OF this, of env "''disconnected''" "JObj [(''reason'', d)]"]
  show ?thesis using On_disconnect assms(2) by (auto simp add: calls_to_def)
next
  case On_error
  have "l \<notin> set (listeners_of (console_error ''WebSocket error'' w) e)"
    using assms by (simp add: listeners_of_def console_error_def)
  from emit_quiet[OF this, of env "''error''" d]
  show ?thesis using On_error assms(2) by (auto simp add: calls_to_def console_error_def)
next
  case (On_inbound name)
  have "l \<notin> set (listeners_of w e)" using assms by (simp add: listeners_of_def)
  from emit_quiet[OF this, of env name d]
  show ?thesis using On_inbound assms(2) by auto
qed

lemma socket_event_quiet:
  assumes "l \<notin> set (listeners_of w e)"
  shows "eventListeners (state_of (socket_event env r ev d w)) = eventListeners w \<and>
         calls_to e l (state_of (socket_event env r ev d w)) = calls_to e l w"
proof (cases "sock_get w r")
  case None
  then show ?thesis by (simp add: socket_event_def state_of_def)
next
  case (Some s)
  define w1 where
    "w1 = (if ev = ''connect'' then sock_upd r (\<lambda>s. s\<lparr>sock_connected := True\<rparr>) w
           else if ev = ''disconnect'' then sock_upd r (\<lambda>s. s\<lparr>sock_connected := False\<rparr>) w
           else w)"
  have "eventListeners w1 = eventListeners w \<and> calls_to e l w1 = calls_to e l w"
    by (simp add: w1_def calls_to_def)
  from forEach_Normal[where f = "run_handler env d"
      and I = "\<lambda>w'. eventListeners w' = eventListeners w \<and> calls_to e l w' = calls_to e l w",
      OF run_handler_quiet[OF assms] this]
  obtain w' where "forEach (run_handler env d) (callbacks_for s ev) w1 = Normal w'"
    "eventListeners w' = eventListeners w" "calls_to e l w' = calls_to e l w" by blast
  then show ?thesis using Some by (simp add: socket_event_def state_of_def w1_def Let_def)
qed

lemma sock_disconnect_quiet:
  assumes "l \<notin> set (listeners_of w e)"
  shows "calls_to e l (state_of (sock_disconnect env r w)) = calls_to e l w"
proof -
  let ?w1 = "record_effect (SocketDisconnect r) w"
  have "l \<notin> set (listeners_of ?w1 e)" using assms by (simp add: listeners_of_def)
  from socket_event_quiet[OF this, of env r "''disconnect''" "JStr ''io client disconnect''"]
  show ?thesis
    by (simp add: sock_disconnect_def Let_def calls_to_record_effect split: option.split)
qed

lemma disconnect_quiet:
  assumes "l \<notin> set (listeners_of w e)"
  shows "eventListeners (state_of (disconnect env w)) = eventListeners w \<and>
         calls_to e l (state_of (disconnect env w)) = calls_to e l w"
proof (cases "socket w")
  case None
  then show ?thesis by (simp add: disconnect_no_socket)
next
  case (Some r)
  from disconnect_with_socket[OF this, of env] obtain w1 where
    w1: "sock_disconnect env r w = Normal w1" "same_settings w w1"
    "disconnect env w =
       Normal (w1\<lparr>socket := None, isConnected := False, currentUserId := None\<rparr>)" by blast
  have "calls_to e l w1 = calls_to e l w"
    using sock_disconnect_quiet[OF assms, of env r] w1(1) by simp
  then show ?thesis using w1 by (simp add: same_settings_def calls_to_def)
qed

lemma reconnect_quiet:
  assumes "l \<notin> set (listeners_of w e)"
  shows "eventListeners (snd (reconnect env w)) = eventListeners w \<and>
         calls_to e l (snd (reconnect env w)) = calls_to e l w"
proof -
  from disconnect_Normal[of env w] obtain w1 where d: "disconnect env w = Normal w1" by blast
  from disconnect_quiet[OF assms, of env] d
  have "eventListeners w1 = eventListeners w" "calls_to e l w1 = calls_to e l w" by simp_all
  then show ?thesis
    by (simp add: reconnect_def d Let_def connect_calls_to calls_to_record_effect)
qed

lemma perform_quiet:
  assumes "l \<notin> set (listeners_of w e)" and "a \<noteq> Call_on e l"
  shows "l \<notin> set (listeners_of (perform env a w) e) \<and>
         calls_to e l (perform env a w) = calls_to e l w"
proof (cases a)
  case (Call_on ev l')
  then show ?thesis using assms
    by (auto simp add: listeners_of_on set_add_def calls_to_def)
next
  case (Call_off ev l')
  then show ?thesis using assms by (auto simp add: listeners_of_off calls_to_def)
next
  case (Socket_event r ev d)
  then show ?thesis using assms socket_event_quiet[OF assms(1), of env r ev d]
    by (simp add: listeners_of_def)
next
  case Call_disconnect
  then show ?thesis using assms disconnect_quiet[OF assms(1), of env]
    by (simp add: listeners_of_def)
next
  case Call_reconnect
  then show ?thesis using assms reconnect_quiet[OF assms(1), of env]
    by (simp add: listeners_of_def)
qed (use assms in \<open>simp_all add: listeners_of_def connect_calls_to
      invoke_calls_to emitEvent_calls_to isAuthenticated_calls_to\<close>)

lemma run_quiet:
  assumes "\<forall>ea \<in> set acts. snd ea \<noteq> Call_on e l" and "l \<notin> set (listeners_of w e)"
  shows "l \<notin> set (listeners_of (run acts w) e) \<and> calls_to e l (run acts w) = calls_to e l w"
  using assms
proof (induction acts arbitrary: w)
  case Nil
  then show ?case by simp
next
  case (Cons ea acts)
  obtain env a where ea: "ea = (env, a)" by (cases ea)
  from Cons.prems ea have "a \<noteq> Call_on e l" by simp
  from perform_quiet[OF Cons.prems(2) this, of env]
  have p: "l \<notin> set (listeners_of (perform env a w) e)"
    "calls_to e l (perform env a w) = calls_to e l w" by simp_all
  from Cons.prems have "\<forall>ea \<in> set acts. snd ea \<noteq> Call_on e l" by simp
  from Cons.IH[OF this p(1)] p(2) show ?case by (simp add: ea)
qed

text \<open>
  C4. After \<open>off(e, l)\<close>, whatever is done to the service next (method calls and socket
  events in any order, with any collaborators), as long as \<open>l\<close> is not subscribed to \<open>e\<close>
  again, \<open>l\<close> is never called for \<open>e\<close>: the calls of \<open>l\<close> for \<open>e\<close> in the trace stay those made
  before. And an \<open>emit(e, d)\<close> after \<open>off(e, l)\<close> calls every other listener that was
  subscribed to \<open>e\<close>, once each, in subscription order, with \<open>d\<close>.
\<close>

theorem off_silences_listener:
  "((\<forall>ea \<in> set acts. snd ea \<noteq> Call_on e l) \<longrightarrow>
      calls_to e l (run acts (off e l w)) = calls_to e l w) \<and>
   (\<exists>w'. emit env e d (off e l w) = Normal w' \<and>
      listener_calls w' =
        listener_calls w @ map (\<lambda>l'. ListenerCall e l' d) (removeAll l (listeners_of w e)))"
proof -
  have "l \<notin> set (listeners_of (off e l w) e)" by (simp add: listeners_of_off)
  from run_quiet[OF _ this]
  have "(\<forall>ea \<in> set acts. snd ea \<noteq> Call_on e l) \<longrightarrow>
      calls_to e l (run acts (off e l w)) = calls_to e l w"
    by (simp add: calls_to_def)
  moreover have "\<exists>w'. emit env e d (off e l w) = Normal w' \<and>
      listener_calls w' =
        listener_calls w @ map (\<lambda>l'. ListenerCall e l' d) (removeAll l (listeners_of w e))"
    by (simp add: emit_eq listener_calls_def filter_calls_concat listeners_of_off)
  ultimately show ?thesis by blast
qed

theorem off_silences_listener_witness:
  "listeners_of two_listeners_world ''new_message'' = [1, 2] \<and>
   calls_to ''new_message'' 1
     (run [(with_token, Socket_event 0 ''new_message'' (JStr ''hi'')),
           (with_token, Call_on ''new_message'' 3),
           (with_token, Socket_event 0 ''new_message'' (JStr ''again''))]
        (off ''new_message'' 1 two_listeners_world)) = [] \<and>
   listener_calls
     (state_of (emit with_token ''new_message'' (JStr ''hi'')
        (off ''new_message'' 1 two_listeners_world))) =
     [ListenerCall ''new_message'' 2 (JStr ''hi'')]"
proof -
  have v: "listeners_of two_listeners_world ''new_message'' = [1, 2]"
    "calls_to ''new_message'' 1 two_listeners_world = []"
    "listener_calls two_listeners_world = []" by code_simp+
  from off_silences_listener
    [of "[(with_token, Socket_event 0 ''new_message'' (JStr ''hi'')),
          (with_token, Call_on ''new_message'' 3),
          (with_token, Socket_event 0 ''new_message'' (JStr ''again''))]"
        "''new_message''" 1 two_listeners_world with_token "JStr ''hi''"]
  show ?thesis using v by (auto simp add: state_of_def)
qed

end
